theory Spec2Isabelle
  imports Complex_Main "HOL-Library.Multiset" "HOL-Library.Char_ord" "HOL-Library.List_Lexorder"
begin

section \<open>Data model of the search client\<close>

text \<open>
  The values that travel in a request body. The request object of \<^verbatim>\<open>useSearch.js\<close> is an
  object literal with conditional spreads, so it is modelled as an association list from
  property names to values, in the order the literal lists them.
\<close>

datatype jsval = JNum int | JStr string | JArr "string list"

text \<open>
  A search result as the documentation of the response lists it (the \<^verbatim>\<open>data\<close> payload is
  left out). The field \<^verbatim>\<open>id\<close> is called \<open>result_id\<close> here.
\<close>

record result =
  result_id :: string
  source :: string
  category :: string
  title :: string
  description :: string
  relevance :: rat
  timestamp :: string

datatype source_state = Ok | Timeout | RateLimited | AuthRequired | BadRequest | ServerError

text \<open>
  The response of \<^verbatim>\<open>POST /api/v1/search\<close>. The first seven fields are the ones the hook
  reads (\<^verbatim>\<open>results\<close>, \<^verbatim>\<open>has_more\<close>, \<^verbatim>\<open>total\<close>, \<^verbatim>\<open>page\<close>, \<^verbatim>\<open>query\<close>,
  \<^verbatim>\<open>search_time_ms\<close>, \<^verbatim>\<open>apis_searched\<close>). The last two are the fields \<^verbatim>\<open>cursor\<close> and
  \<^verbatim>\<open>source_status\<close> of the response contract of the specification; no line of the client
  reads them.
\<close>

record response =
  resp_results :: "result list"
  has_more :: bool
  resp_total :: int
  resp_page :: int
  resp_query :: string
  search_time_ms :: int
  apis_searched :: "string list"
  cursor :: "string option"
  source_status :: "(string \<times> source_state) list"

text \<open>The state object of the hook \<^verbatim>\<open>useSearch\<close> (\<^verbatim>\<open>total\<close> is \<open>total_found\<close>).\<close>

record search_state =
  results :: "result list"
  loading :: bool
  error :: "string option"
  hasMore :: bool
  total_found :: int
  page :: int
  query :: string
  searchTime :: int
  apisSearched :: "string list"

definition initial_state :: search_state where
  "initial_state =
     \<lparr>results = [], loading = False, error = None, hasMore = False, total_found = 0,
      page = 1, query = [], searchTime = 0, apisSearched = []\<rparr>"

text \<open>
  The argument \<^verbatim>\<open>searchParams\<close> of \<^verbatim>\<open>search\<close>. A property that is absent (or
  \<^verbatim>\<open>null\<close>) is \<open>None\<close>.
\<close>

record searchParams =
  param_query :: string
  limit :: "int option"
  apis :: "string list option"
  categories :: "string list option"
  dateStart :: "string option"
  dateEnd :: "string option"

text \<open>The filters object of \<^verbatim>\<open>SearchContext\<close>.\<close>

record filters =
  filter_apis :: "string list"
  filter_categories :: "string list"
  filter_dateStart :: "string option"
  filter_dateEnd :: "string option"

definition initial_filters :: filters where
  "initial_filters =
     \<lparr>filter_apis = [], filter_categories = [], filter_dateStart = None, filter_dateEnd = None\<rparr>"

text \<open>A thrown JavaScript error: its \<^verbatim>\<open>name\<close> and its \<^verbatim>\<open>message\<close>.\<close>

record js_error =
  err_name :: string
  err_message :: string

text \<open>
  A request handed to \<^verbatim>\<open>apiService.post\<close> whose promise has not settled yet. \<open>signal\<close> is
  the abort controller whose signal travels with the request, if any.
\<close>

record pending_request =
  url :: string
  body :: "(string \<times> jsval) list"
  signal :: "nat option"

text \<open>
  One instance of the hook: its state, the ref holding the current abort controller,
  the number of controllers created so far (the next one gets this number), the
  controllers whose \<^verbatim>\<open>abort()\<close> has been called, and the requests in flight.
\<close>

record hook =
  state :: search_state
  abortControllerRef :: "nat option"
  controllers :: nat
  aborted :: "nat list"
  inflight :: "pending_request list"

definition initial_hook :: hook where
  "initial_hook =
     \<lparr>state = initial_state, abortControllerRef = None, controllers = 0, aborted = [],
      inflight = []\<rparr>"

section \<open>searchService.js\<close>

text \<open>
  \<^verbatim>\<open>apiService\<close> (\<^verbatim>\<open>api.js\<close>) is not part of the sources: the outcome of its call is an
  argument, \<open>Inl\<close> the error it throws and \<open>Inr\<close> the value it resolves to.
\<close>

definition search_failed :: js_error where
  "search_failed = \<lparr>err_name = ''Error'', err_message = ''Falha na busca. Tente novamente.''\<rparr>"

definition searchService_search :: "js_error + response \<Rightarrow> js_error + response" where
  "searchService_search outcome =
     (case outcome of
        Inr response \<Rightarrow> Inr response
      | Inl e \<Rightarrow> Inl search_failed)"

text \<open>
  The request \<^verbatim>\<open>searchService.search(requestData)\<close> puts on the wire: the url, the body,
  and no abort signal, since the function receives none and hands none on.
\<close>

definition searchService_post :: "(string \<times> jsval) list \<Rightarrow> pending_request" where
  "searchService_post searchRequest =
     \<lparr>url = ''/api/v1/search'', body = searchRequest, signal = None\<rparr>"

record suggestions_response =
  suggestions :: "string list option"

record apis_response =
  apis_status :: "string list option"

definition getSuggestions :: "js_error + suggestions_response \<Rightarrow> string list" where
  "getSuggestions outcome =
     (case outcome of
        Inr response \<Rightarrow> (case suggestions response of Some s \<Rightarrow> s | None \<Rightarrow> [])
      | Inl e \<Rightarrow> [])"

definition getApisStatus :: "js_error + apis_response \<Rightarrow> string list" where
  "getApisStatus outcome =
     (case outcome of
        Inr response \<Rightarrow> (case apis_status response of Some s \<Rightarrow> s | None \<Rightarrow> [])
      | Inl e \<Rightarrow> [])"

section \<open>useSearch.js\<close>

text \<open>
  \<^verbatim>\<open>...(v && {key: v})\<close>: the property is present when \<open>v\<close> is truthy. An array is truthy
  even when empty, a string when it is not empty, a number when it is not zero.
\<close>

definition spread_array :: "string \<Rightarrow> string list option \<Rightarrow> (string \<times> jsval) list" where
  "spread_array k v = (case v of None \<Rightarrow> [] | Some a \<Rightarrow> [(k, JArr a)])"

definition spread_string :: "string \<Rightarrow> string option \<Rightarrow> (string \<times> jsval) list" where
  "spread_string k v = (case v of None \<Rightarrow> [] | Some s \<Rightarrow> if s = [] then [] else [(k, JStr s)])"

text \<open>\<^verbatim>\<open>searchParams.limit || 20\<close>\<close>

definition limit_or_20 :: "int option \<Rightarrow> int" where
  "limit_or_20 l = (case l of None \<Rightarrow> 20 | Some n \<Rightarrow> if n = 0 then 20 else n)"

text \<open>
  \<^verbatim>\<open>state.page + 1\<close> in the arithmetic of JavaScript numbers (doubles), for a page
  that is an integer: the sum is exact from \<open>- 2^53\<close> up to \<open>2^53 - 1\<close>. Beyond that
  the odd sum is no double and is rounded to the nearest one: between \<open>2^53\<close> and
  \<open>2^54\<close> in absolute value it lies halfway between two doubles and goes to the one
  with the even significand (so \<open>2^53 + 1\<close> is \<open>2^53\<close>), farther out it goes
  back to the page itself.
\<close>

definition js_plus_one :: "int \<Rightarrow> int" where
  "js_plus_one n =
     (if - (2 ^ 53) \<le> n \<and> n < 2 ^ 53 then n + 1
      else if - (2 ^ 54) \<le> n \<and> n < 2 ^ 54 then (if n mod 4 = 0 then n else n + 2)
      else n)"

definition requestData :: "search_state \<Rightarrow> searchParams \<Rightarrow> bool \<Rightarrow> (string \<times> jsval) list" where
  "requestData st searchParams resetResults =
     [(''query'', JStr (param_query searchParams)),
      (''page'', JNum (if resetResults then 1 else js_plus_one (page st))),
      (''limit'', JNum (limit_or_20 (limit searchParams)))]
     @ spread_array ''apis'' (apis searchParams)
     @ spread_array ''categories'' (categories searchParams)
     @ spread_string ''date_start'' (dateStart searchParams)
     @ spread_string ''date_end'' (dateEnd searchParams)"

text \<open>\<^verbatim>\<open>if (abortControllerRef.current) abortControllerRef.current.abort()\<close>\<close>

definition abort_current :: "hook \<Rightarrow> hook" where
  "abort_current h =
     (case abortControllerRef h of
        None \<Rightarrow> h
      | Some c \<Rightarrow> h\<lparr>aborted := c # aborted h\<rparr>)"

text \<open>
  \<^verbatim>\<open>search\<close> up to its \<^verbatim>\<open>await\<close>: the previous controller is aborted, a new one is
  stored in the ref, the state is set to loading (and emptied when \<open>resetResults\<close>), and
  the request is handed to the service. The page of the request is read from the state
  of the render the callback was created in, here the state on entry.
\<close>

definition search_begin :: "hook \<Rightarrow> searchParams \<Rightarrow> bool \<Rightarrow> hook \<times> pending_request" where
  "search_begin h searchParams resetResults =
     (let h1 = abort_current h;
          h2 = h1\<lparr>abortControllerRef := Some (controllers h1), controllers := Suc (controllers h1)\<rparr>;
          st = (state h2)\<lparr>loading := True, error := None\<rparr>;
          st' = (if resetResults then st\<lparr>results := [], page := 1\<rparr> else st);
          rq = searchService_post (requestData (state h) searchParams resetResults)
      in (h2\<lparr>state := st', inflight := inflight h2 @ [rq]\<rparr>, rq))"

text \<open>The state update after the response has arrived.\<close>

definition search_resolve :: "search_state \<Rightarrow> bool \<Rightarrow> response \<Rightarrow> search_state" where
  "search_resolve prev resetResults response =
     prev\<lparr>loading := False,
          results := (if resetResults then resp_results response
                      else results prev @ resp_results response),
          hasMore := has_more response,
          total_found := resp_total response,
          page := resp_page response,
          query := resp_query response,
          searchTime := search_time_ms response,
          apisSearched := apis_searched response,
          error := None\<rparr>"

text \<open>The \<^verbatim>\<open>catch\<close> block: \<^verbatim>\<open>error.message || 'Erro na busca'\<close>, unless the error is an abort.\<close>

definition search_reject :: "search_state \<Rightarrow> js_error \<Rightarrow> search_state" where
  "search_reject prev e =
     (if err_name e \<noteq> ''AbortError''
      then prev\<lparr>loading := False,
                error := Some (if err_message e = [] then ''Erro na busca'' else err_message e)\<rparr>
      else prev)"

text \<open>
  \<^verbatim>\<open>search\<close> after its \<^verbatim>\<open>await\<close>: the request leaves the wire, and the hook returns the
  response or rethrows the error.
\<close>

definition search_settle ::
  "hook \<Rightarrow> pending_request \<Rightarrow> bool \<Rightarrow> js_error + response \<Rightarrow> hook \<times> (js_error + response)" where
  "search_settle h rq resetResults outcome =
     (let h1 = h\<lparr>inflight := remove1 rq (inflight h)\<rparr>
      in case searchService_search outcome of
           Inr response \<Rightarrow> (h1\<lparr>state := search_resolve (state h1) resetResults response\<rparr>, Inr response)
         | Inl e \<Rightarrow> (h1\<lparr>state := search_reject (state h1) e\<rparr>, Inl e))"

text \<open>A call of \<^verbatim>\<open>search\<close> that runs to its end with nothing in between.\<close>

definition search ::
  "hook \<Rightarrow> searchParams \<Rightarrow> bool \<Rightarrow> js_error + response \<Rightarrow> hook \<times> (js_error + response)" where
  "search h searchParams resetResults outcome =
     (let (h1, rq) = search_begin h searchParams resetResults
      in search_settle h1 rq resetResults outcome)"

definition loadMore_params :: "search_state \<Rightarrow> searchParams" where
  "loadMore_params st =
     \<lparr>param_query = query st, limit = Some 20, apis = None, categories = None,
      dateStart = None, dateEnd = None\<rparr>"

text \<open>\<^verbatim>\<open>if (state.loading || !state.hasMore || !state.query) return;\<close>\<close>

definition loadMore_skips :: "search_state \<Rightarrow> bool" where
  "loadMore_skips st = (loading st \<or> \<not> hasMore st \<or> query st = [])"

definition loadMore_begin :: "hook \<Rightarrow> hook \<times> pending_request option" where
  "loadMore_begin h =
     (if loadMore_skips (state h) then (h, None)
      else (let (h1, rq) = search_begin h (loadMore_params (state h)) False in (h1, Some rq)))"

text \<open>\<^verbatim>\<open>loadMore\<close> run to its end; an error of \<^verbatim>\<open>search\<close> is logged and dropped.\<close>

definition loadMore :: "hook \<Rightarrow> js_error + response \<Rightarrow> hook" where
  "loadMore h outcome =
     (if loadMore_skips (state h) then h
      else fst (search h (loadMore_params (state h)) False outcome))"

definition clearResults :: "hook \<Rightarrow> hook" where
  "clearResults h = (abort_current h)\<lparr>state := initial_state\<rparr>"

text \<open>
  A request in flight is still doing outbound work unless it carries the signal of a
  controller that has been aborted.
\<close>

definition performing :: "hook \<Rightarrow> pending_request \<Rightarrow> bool" where
  "performing h rq = (case signal rq of None \<Rightarrow> True | Some c \<Rightarrow> c \<notin> set (aborted h))"

section \<open>Home: the top-level search handler\<close>

definition handleSearch_params :: "filters \<Rightarrow> string \<Rightarrow> searchParams" where
  "handleSearch_params f searchQuery =
     \<lparr>param_query = searchQuery, limit = None, apis = Some (filter_apis f),
      categories = Some (filter_categories f), dateStart = filter_dateStart f,
      dateEnd = filter_dateEnd f\<rparr>"

text \<open>\<^verbatim>\<open>handleSearch\<close>: \<^verbatim>\<open>search({query: searchQuery, ...filters})\<close>, errors logged and dropped.\<close>

definition handleSearch :: "hook \<Rightarrow> filters \<Rightarrow> string \<Rightarrow> js_error + response \<Rightarrow> hook" where
  "handleSearch h f searchQuery outcome =
     fst (search h (handleSearch_params f searchQuery) True outcome)"

text \<open>
  Repeated \<^verbatim>\<open>loadMore\<close> calls, each run to its end. The list gives for every call the
  outcome its request would have; a call that returns at once issues no request and
  leaves its entry unused.
\<close>

fun loadMore_calls :: "hook \<Rightarrow> (js_error + response) list \<Rightarrow> hook" where
  "loadMore_calls h [] = h"
| "loadMore_calls h (outcome # outcomes) = loadMore_calls (loadMore h outcome) outcomes"

text \<open>
  The results that a run of \<^verbatim>\<open>loadMore\<close> calls takes from the outcomes of its requests:
  a failed request adds nothing, a response adds all of its results, and once a response
  says \<^verbatim>\<open>has_more: false\<close> (or names no query) no later call asks for anything.
\<close>

fun pages_shown :: "bool \<Rightarrow> (js_error + response) list \<Rightarrow> result list" where
  "pages_shown active [] = []"
| "pages_shown active (Inl e # outcomes) = pages_shown active outcomes"
| "pages_shown active (Inr r # outcomes) =
     (if active then resp_results r @ pages_shown (has_more r \<and> resp_query r \<noteq> []) outcomes
      else [])"

section \<open>useInfiniteScroll.js\<close>

text \<open>
  \<^verbatim>\<open>handleScroll\<close>: the value of \<^verbatim>\<open>isFetching\<close> after a scroll event, from the window's
  \<^verbatim>\<open>innerHeight\<close>, the document's \<^verbatim>\<open>scrollTop\<close> and \<^verbatim>\<open>offsetHeight\<close>, the current
  \<^verbatim>\<open>isFetching\<close> and the hook's second argument. The callback runs when
  \<^verbatim>\<open>isFetching\<close> becomes true.
\<close>

definition handleScroll :: "int \<Rightarrow> int \<Rightarrow> int \<Rightarrow> bool \<Rightarrow> bool \<Rightarrow> bool" where
  "handleScroll innerHeight scrollTop offsetHeight isFetching hasMore_arg =
     (if innerHeight + scrollTop \<ge> offsetHeight - 1000 \<or> isFetching \<or> \<not> hasMore_arg
      then isFetching
      else True)"

section \<open>SearchResults.jsx\<close>

text \<open>\<^verbatim>\<open>api.replace('_', ' ')\<close> replaces the first occurrence only.\<close>

fun replace_first :: "char \<Rightarrow> char \<Rightarrow> string \<Rightarrow> string" where
  "replace_first a b [] = []"
| "replace_first a b (c # cs) = (if c = a then b # cs else c # replace_first a b cs)"

text \<open>
  What the component renders in its last branch: the header (query, total, and the
  search time when positive), one badge per entry of \<^verbatim>\<open>apisSearched\<close>, one card per
  entry of \<^verbatim>\<open>results\<close> with its index (the key of a card is the id and the index), the
  spinner for more results, and the end marker with the number of results.
\<close>

record results_view =
  shown_query :: string
  shown_total :: int
  shown_searchTime :: "int option"
  source_badges :: "string list"
  cards :: "(nat \<times> result) list"
  loading_more :: bool
  end_of_results :: "nat option"

datatype view =
    LoadingView "string list"
  | ErrorView string
  | EmptyView string
  | InitialView
  | ResultsView results_view

text \<open>\<^verbatim>\<open>if (error)\<close>: a message that is present and not empty.\<close>

definition error_shown :: "string option \<Rightarrow> string option" where
  "error_shown e = (case e of None \<Rightarrow> None | Some m \<Rightarrow> if m = [] then None else Some m)"

definition SearchResults :: "search_state \<Rightarrow> bool \<Rightarrow> view" where
  "SearchResults props isFetchingMore =
     (if loading props \<and> results props = [] then LoadingView (apisSearched props)
      else case error_shown (error props) of
        Some m \<Rightarrow> ErrorView m
      | None \<Rightarrow>
          if \<not> loading props \<and> results props = [] \<and> query props \<noteq> [] then EmptyView (query props)
          else if query props = [] \<and> results props = [] then InitialView
          else ResultsView
            \<lparr>shown_query = query props,
             shown_total = total_found props,
             shown_searchTime = (if searchTime props > 0 then Some (searchTime props) else None),
             source_badges = map (replace_first (CHR ''_'') (CHR '' '')) (apisSearched props),
             cards = enumerate 0 (results props),
             loading_more = ((loading props \<or> isFetchingMore) \<and> results props \<noteq> []),
             end_of_results =
               (if \<not> hasMore props \<and> \<not> loading props \<and> results props \<noteq> []
                then Some (length (results props)) else None)\<rparr>)"

section \<open>SearchContext: the search history\<close>

text \<open>
  The characters \<^verbatim>\<open>String.prototype.trim\<close> strips, among those a \<open>char\<close> can hold: tab,
  line feed, vertical tab, form feed, carriage return, space and no-break space.
\<close>

definition is_whitespace :: "char \<Rightarrow> bool" where
  "is_whitespace c = (c \<in> set [CHR 0x09, CHR 0x0A, CHR 0x0B, CHR 0x0C, CHR 0x0D, CHR 0x20, CHR 0xA0])"

definition trim :: "string \<Rightarrow> string" where
  "trim s = rev (dropWhile is_whitespace (rev (dropWhile is_whitespace s)))"

text \<open>
  The provider's \<^verbatim>\<open>searchHistory\<close> state and the list stored under the key
  \<^verbatim>\<open>searchHistory\<close> of \<^verbatim>\<open>localStorage\<close> (\<open>None\<close> when the key is not set).
\<close>

record history_state =
  searchHistory :: "string list"
  localStorage :: "string list option"

text \<open>The initialiser of the state: the saved list, or the empty one.\<close>

definition load_history :: "string list option \<Rightarrow> history_state" where
  "load_history saved =
     \<lparr>searchHistory = (case saved of Some l \<Rightarrow> l | None \<Rightarrow> []), localStorage = saved\<rparr>"

definition addToHistory :: "history_state \<Rightarrow> string \<Rightarrow> history_state" where
  "addToHistory hs q =
     (if trim q = [] then hs
      else (let newHistory = take 10 (q # filter (\<lambda>item. item \<noteq> q) (searchHistory hs))
            in \<lparr>searchHistory = newHistory, localStorage = Some newHistory\<rparr>))"

definition clearHistory :: "history_state \<Rightarrow> history_state" where
  "clearHistory hs = \<lparr>searchHistory = [], localStorage = None\<rparr>"

text \<open>
  The histories the provider can hold: it starts on a browser with nothing stored, and
  from then on queries are added, the history is cleared, or the page is loaded again
  and the state read back from the storage.
\<close>

inductive history_reachable :: "history_state \<Rightarrow> bool" where
  first_visit: "history_reachable (load_history None)"
| added: "history_reachable hs \<Longrightarrow> history_reachable (addToHistory hs q)"
| cleared: "history_reachable hs \<Longrightarrow> history_reachable (clearHistory hs)"
| reloaded: "history_reachable hs \<Longrightarrow> history_reachable (load_history (localStorage hs))"

text \<open>
  What holds of every history the provider can hold: no entry twice and at most ten
  entries, in the state and in the storage.
\<close>

definition history_ok :: "history_state \<Rightarrow> bool" where
  "history_ok hs =
     (distinct (searchHistory hs) \<and> length (searchHistory hs) \<le> 10
      \<and> (case localStorage hs of None \<Rightarrow> True | Some l \<Rightarrow> distinct l \<and> length l \<le> 10))"

section \<open>The merge step of the specification\<close>

text \<open>
  Modelled from the spec: the order of the Ranker/Merger (section 4.5), which no source
  file holds. \<open>a\<close> stands before \<open>b\<close> when its combined score is higher, or the scores are
  equal and its source has the higher priority, or those are equal too and its id is not
  the greater one. The scoring formula is left open by the specification, so the
  combined score and the priority of a source are arguments.
\<close>

definition ranks_before :: "(result \<Rightarrow> rat) \<Rightarrow> (string \<Rightarrow> nat) \<Rightarrow> result \<Rightarrow> result \<Rightarrow> bool" where
  "ranks_before score priority a b =
     (score b < score a
      \<or> (score a = score b
          \<and> (priority (source b) < priority (source a)
              \<or> (priority (source a) = priority (source b) \<and> result_id a \<le> result_id b))))"

text \<open>
  Modelled from the spec: one step of the merger's sort (section 4.5), the insertion of a
  result into a ranked list before the first entry it stands before.
\<close>

fun insert_ranked :: "(result \<Rightarrow> rat) \<Rightarrow> (string \<Rightarrow> nat) \<Rightarrow> result \<Rightarrow> result list \<Rightarrow> result list" where
  "insert_ranked score priority x [] = [x]"
| "insert_ranked score priority x (y # ys) =
     (if ranks_before score priority x y then x # y # ys
      else y # insert_ranked score priority x ys)"

text \<open>Modelled from the spec: the merger's sort (section 4.5) of a pool of candidates.\<close>

definition rank_sort :: "(result \<Rightarrow> rat) \<Rightarrow> (string \<Rightarrow> nat) \<Rightarrow> result list \<Rightarrow> result list" where
  "rank_sort score priority xs = foldr (insert_ranked score priority) xs []"

text \<open>
  Modelled from the spec: the merge step (section 4.5): the batches of the sources that
  answered are pooled, sorted, and the page is cut at the requested limit.
\<close>

definition merge_batches ::
  "(result \<Rightarrow> rat) \<Rightarrow> (string \<Rightarrow> nat) \<Rightarrow> nat \<Rightarrow> result list list \<Rightarrow> result list" where
  "merge_batches score priority page_limit batches =
     take page_limit (rank_sort score priority (concat batches))"

section \<open>Example values\<close>

definition result_a :: result where
  "result_a =
     \<lparr>result_id = ''portal_despesas_123'', source = ''portal_transparencia'',
      category = ''despesas'', title = ''Ministerio da Educacao'', description = ''Valor'',
      relevance = 19 / 20, timestamp = ''2024-09-11T10:00:00Z''\<rparr>"

definition result_b :: result where
  "result_b =
     \<lparr>result_id = ''camara_proposicao_7'', source = ''camara_deputados'',
      category = ''proposicoes'', title = ''Projeto de lei'', description = ''Ementa'',
      relevance = 19 / 20, timestamp = ''2024-09-10T08:30:00Z''\<rparr>"

definition result_c :: result where
  "result_c =
     \<lparr>result_id = ''ibge_municipio_42'', source = ''ibge'',
      category = ''municipios'', title = ''Municipio'', description = ''Populacao'',
      relevance = 1 / 2, timestamp = ''2024-09-09T12:00:00Z''\<rparr>"

definition page_of_a :: response where
  "page_of_a =
     \<lparr>resp_results = [result_a], has_more = True, resp_total = 150, resp_page = 1,
      resp_query = ''despesas'', search_time_ms = 245,
      apis_searched = [''portal_transparencia'', ''ibge''],
      cursor = Some ''c1'',
      source_status = [(''portal_transparencia'', Ok), (''ibge'', Ok)]\<rparr>"


definition page_of_a_degraded :: response where
  "page_of_a_degraded =
     page_of_a\<lparr>source_status := [(''portal_transparencia'', Ok), (''ibge'', Timeout)]\<rparr>"

definition params_a :: searchParams where
  "params_a =
     \<lparr>param_query = ''despesas'', limit = None, apis = None, categories = None,
      dateStart = None, dateEnd = None\<rparr>"

definition params_b :: searchParams where
  "params_b =
     \<lparr>param_query = ''servidores'', limit = None, apis = None, categories = None,
      dateStart = None, dateEnd = None\<rparr>"

definition source_priority :: "string \<Rightarrow> nat" where
  "source_priority s = (if s = ''portal_transparencia'' then 2 else 1)"

text \<open>A history of ten queries, entered one after another on a first visit.\<close>

definition history_of_ten :: history_state where
  "history_of_ten =
     foldl addToHistory (load_history None)
       [''q0'', ''q1'', ''q2'', ''q3'', ''q4'', ''q5'', ''q6'', ''q7'', ''q8'', ''q9'']"




section \<open>Properties of the hook\<close>

lemma search_begin_state:
  "state (fst (search_begin h p r)) =
     (if r then (state h)\<lparr>loading := True, error := None, results := [], page := 1\<rparr>
      else (state h)\<lparr>loading := True, error := None\<rparr>)"
  by (simp add: search_begin_def abort_current_def Let_def split: option.split)

lemma search_begin_request:
  "snd (search_begin h p r) = searchService_post (requestData (state h) p r)"
  by (simp add: search_begin_def Let_def)

lemma search_begin_inflight:
  "inflight (fst (search_begin h p r)) = inflight h @ [snd (search_begin h p r)]"
  by (simp add: search_begin_def abort_current_def Let_def split: option.split)

lemma issued_without_signal: "signal (snd (search_begin h p r)) = None"
  by (simp add: search_begin_request searchService_post_def)

lemma search_state_Inr:
  "state (fst (search h p r (Inr resp))) = search_resolve (state (fst (search_begin h p r))) r resp"
  by (simp add: search_def search_settle_def searchService_search_def Let_def split_beta)

lemma search_state_Inl:
  "state (fst (search h p r (Inl e))) = search_reject (state (fst (search_begin h p r))) search_failed"
  by (simp add: search_def search_settle_def searchService_search_def Let_def split_beta)

lemma loadMore_state_Inr:
  "\<not> loadMore_skips (state h) \<Longrightarrow>
     state (loadMore h (Inr r)) =
       search_resolve ((state h)\<lparr>loading := True, error := None\<rparr>) False r"
  by (simp add: loadMore_def search_state_Inr search_begin_state)

lemma loadMore_state_Inl:
  "\<not> loadMore_skips (state h) \<Longrightarrow>
     state (loadMore h (Inl e)) =
       (state h)\<lparr>loading := False, error := Some ''Falha na busca. Tente novamente.''\<rparr>"
  by (simp add: loadMore_def search_state_Inl search_begin_state search_reject_def search_failed_def)

lemma loadMore_calls_skips:
  "loadMore_skips (state h) \<Longrightarrow> loadMore_calls h outcomes = h"
  by (induction outcomes) (simp_all add: loadMore_def)

lemma pages_shown_inactive: "\<not> active \<Longrightarrow> pages_shown active outcomes = []"
  by (induction active outcomes rule: pages_shown.induct) simp_all

lemma loadMore_calls_results:
  "\<not> loading (state h) \<Longrightarrow>
     results (state (loadMore_calls h outcomes)) =
       results (state h) @ pages_shown (hasMore (state h) \<and> query (state h) \<noteq> []) outcomes"
proof (induction outcomes arbitrary: h)
  case Nil
  then show ?case by simp
next
  case (Cons outcome outcomes)
  show ?case
  proof (cases "loadMore_skips (state h)")
    case True
    with Cons.prems have "\<not> (hasMore (state h) \<and> query (state h) \<noteq> [])"
      by (simp add: loadMore_skips_def)
    then have "pages_shown (hasMore (state h) \<and> query (state h) \<noteq> []) (outcome # outcomes) = []"
      by (rule pages_shown_inactive)
    moreover have "loadMore_calls h (outcome # outcomes) = h"
      using True by (rule loadMore_calls_skips)
    ultimately show ?thesis by simp
  next
    case False
    then have act: "hasMore (state h) \<and> query (state h) \<noteq> []"
      by (simp add: loadMore_skips_def)
    show ?thesis
    proof (cases outcome)
      case (Inl e)
      have st: "state (loadMore h (Inl e)) =
          (state h)\<lparr>loading := False, error := Some ''Falha na busca. Tente novamente.''\<rparr>"
        using False by (rule loadMore_state_Inl)
      have "\<not> loading (state (loadMore h (Inl e)))" by (simp add: st)
      from Cons.IH [OF this] show ?thesis
        using Inl act by (simp add: st)
    next
      case (Inr r)
      have st: "state (loadMore h (Inr r)) =
          search_resolve ((state h)\<lparr>loading := True, error := None\<rparr>) False r"
        using False by (rule loadMore_state_Inr)
      have "\<not> loading (state (loadMore h (Inr r)))" by (simp add: st search_resolve_def)
      from Cons.IH [OF this] show ?thesis
        using Inr act by (simp add: st search_resolve_def)
    qed
  qed
qed

text \<open>
  Claim C1, as amended. A session is a call of the search handler answered by \<open>r0\<close>,
  followed by any number of \<^verbatim>\<open>loadMore\<close> calls with the outcomes of their requests. The
  accumulated list is the first page followed by every page the session received, in
  order and with nothing filtered out; so it has no two entries with the same id exactly
  when the pages received have none among them.
\<close>

theorem session_results:
  "results (state (loadMore_calls (handleSearch h f q (Inr r0)) outcomes)) =
     resp_results r0 @ pages_shown (has_more r0 \<and> resp_query r0 \<noteq> []) outcomes
   \<and> distinct (map result_id (results (state (loadMore_calls (handleSearch h f q (Inr r0)) outcomes)))) =
       distinct (map result_id
         (resp_results r0 @ pages_shown (has_more r0 \<and> resp_query r0 \<noteq> []) outcomes))"
proof -
  have st: "state (handleSearch h f q (Inr r0)) =
      search_resolve ((state h)\<lparr>loading := True, error := None, results := [], page := 1\<rparr>) True r0"
    by (simp add: handleSearch_def search_state_Inr search_begin_state)
  have "\<not> loading (state (handleSearch h f q (Inr r0)))"
    by (simp add: st search_resolve_def)
  from loadMore_calls_results [OF this, of outcomes]
  have "results (state (loadMore_calls (handleSearch h f q (Inr r0)) outcomes)) =
     resp_results r0 @ pages_shown (has_more r0 \<and> resp_query r0 \<noteq> []) outcomes"
    by (simp add: st search_resolve_def)
  then show ?thesis by simp
qed

text \<open>
  Claim C1 as stated fails: when the second page repeats a result of the first, the
  accumulated list holds its id twice.
\<close>

theorem session_duplicate_ids:
  "\<not> distinct (map result_id (results (state
      (loadMore_calls (handleSearch initial_hook initial_filters ''despesas'' (Inr page_of_a))
         [Inr page_of_a]))))"
  by (simp add: handleSearch_def loadMore_def loadMore_skips_def search_state_Inr
      search_begin_state search_resolve_def page_of_a_def result_a_def)

text \<open>
  Claim C2, as amended. The limit of the request is 20 when the caller gives none or
  zero, and the caller's own value otherwise; it is within 1 to 100 exactly when that
  value is. The two callers of the repository, the search handler and \<^verbatim>\<open>loadMore\<close>,
  always send 20.
\<close>

theorem limit_sent:
  "map_of (body (snd (search_begin h p r))) ''limit'' =
     Some (JNum (case limit p of None \<Rightarrow> 20 | Some n \<Rightarrow> if n = 0 then 20 else n))
   \<and> (1 \<le> limit_or_20 (limit p) \<and> limit_or_20 (limit p) \<le> 100) =
       (limit p = None \<or> limit p = Some 0 \<or> (\<exists>n. limit p = Some n \<and> 1 \<le> n \<and> n \<le> 100))
   \<and> map_of (body (snd (search_begin h (handleSearch_params f q) True))) ''limit''
       = Some (JNum 20)
   \<and> map_of (body (snd (search_begin h (loadMore_params (state h)) False))) ''limit''
       = Some (JNum 20)"
  by (cases "limit p")
     (simp_all add: search_begin_request searchService_post_def requestData_def limit_or_20_def
        handleSearch_params_def loadMore_params_def)

text \<open>
  Claim C2 as stated fails: a limit of 500 and a limit of -5 are sent on unchanged.
\<close>

theorem limit_not_clamped:
  "map_of (body (snd (search_begin initial_hook (params_a\<lparr>limit := Some 500\<rparr>) True))) ''limit''
     = Some (JNum 500)
   \<and> map_of (body (snd (search_begin initial_hook (params_a\<lparr>limit := Some (- 5)\<rparr>) True))) ''limit''
     = Some (JNum (- 5))"
  by (simp add: search_begin_request searchService_post_def requestData_def limit_or_20_def
      params_a_def)

text \<open>
  Claim C3, as amended. After a response that says \<^verbatim>\<open>has_more\<close> and names a query,
  \<^verbatim>\<open>loadMore\<close> issues exactly one request: to the search endpoint, with the query of
  that response, the page number of that response plus one (for a page number from
  \<open>- 2^53\<close> to \<open>2^53 - 1\<close>, where the sum of JavaScript numbers is exact), the limit
  20, and nothing else.
\<close>

theorem loadMore_follow_up:
  "has_more r \<Longrightarrow> resp_query r \<noteq> [] \<Longrightarrow>
   - (2 ^ 53) \<le> resp_page r \<Longrightarrow> resp_page r < 2 ^ 53 \<Longrightarrow>
   h = fst (search h0 p reset (Inr r)) \<Longrightarrow>
     loadMore_begin h =
       (fst (search_begin h (loadMore_params (state h)) False),
        Some \<lparr>url = ''/api/v1/search'',
              body = [(''query'', JStr (resp_query r)), (''page'', JNum (resp_page r + 1)),
                      (''limit'', JNum 20)],
              signal = None\<rparr>)
     \<and> inflight (fst (loadMore_begin h)) =
         inflight h @
           [\<lparr>url = ''/api/v1/search'',
             body = [(''query'', JStr (resp_query r)), (''page'', JNum (resp_page r + 1)),
                     (''limit'', JNum 20)],
             signal = None\<rparr>]"
proof -
  assume a: "has_more r" "resp_query r \<noteq> []" "h = fst (search h0 p reset (Inr r))"
    and lo: "- (2 ^ 53) \<le> resp_page r" and hi: "resp_page r < 2 ^ 53"
  have st: "state h = search_resolve (state (fst (search_begin h0 p reset))) reset r"
    using a(3) by (simp add: search_state_Inr)
  have ns: "\<not> loadMore_skips (state h)"
    using a(1,2) by (simp add: st loadMore_skips_def search_resolve_def)
  have pg: "js_plus_one (resp_page r) = resp_page r + 1"
    using lo hi by (simp add: js_plus_one_def)
  have rq: "snd (search_begin h (loadMore_params (state h)) False) =
      \<lparr>url = ''/api/v1/search'',
       body = [(''query'', JStr (resp_query r)), (''page'', JNum (resp_page r + 1)),
               (''limit'', JNum 20)],
       signal = None\<rparr>"
    by (simp add: search_begin_request searchService_post_def requestData_def loadMore_params_def
        limit_or_20_def spread_array_def spread_string_def st search_resolve_def pg)
  have lb: "loadMore_begin h = (fst (search_begin h (loadMore_params (state h)) False),
      Some (snd (search_begin h (loadMore_params (state h)) False)))"
    using ns by (simp add: loadMore_begin_def split_beta)
  show ?thesis
    by (simp add: lb search_begin_inflight rq)
qed

text \<open>The follow-up request after the first page of the example.\<close>

theorem loadMore_follow_up_witness:
  "has_more page_of_a \<and> resp_query page_of_a \<noteq> []
   \<and> - (2 ^ 53) \<le> resp_page page_of_a \<and> resp_page page_of_a < 2 ^ 53
   \<and> inflight (fst (loadMore_begin (fst (search initial_hook params_a True (Inr page_of_a))))) =
       inflight (fst (search initial_hook params_a True (Inr page_of_a))) @
         [\<lparr>url = ''/api/v1/search'',
           body = [(''query'', JStr ''despesas''), (''page'', JNum 2), (''limit'', JNum 20)],
           signal = None\<rparr>]"
proof -
  have hm: "has_more page_of_a" by (simp add: page_of_a_def)
  have q: "resp_query page_of_a \<noteq> []" by (simp add: page_of_a_def)
  have lo: "- (2 ^ 53) \<le> resp_page page_of_a" by (simp add: page_of_a_def)
  have hi: "resp_page page_of_a < 2 ^ 53" by (simp add: page_of_a_def)
  have rq: "resp_query page_of_a = ''despesas''" and rp: "resp_page page_of_a + 1 = 2"
    by (simp_all add: page_of_a_def)
  show ?thesis
    using hm q lo hi
      loadMore_follow_up [OF hm q lo hi refl, of initial_hook params_a True, THEN conjunct2]
    by (simp add: rq rp)
qed

text \<open>
  Claim C3 as stated fails: the response carried the cursor \<open>c1\<close>, and the follow-up
  request has no \<^verbatim>\<open>cursor\<close> property and holds the value \<open>c1\<close> nowhere; its pagination
  token is the page number 2.
\<close>

theorem follow_up_without_cursor:
  "cursor page_of_a = Some ''c1''
   \<and> (case loadMore_begin (fst (search initial_hook params_a True (Inr page_of_a))) of
        (h', Some rq) \<Rightarrow>
          map_of (body rq) ''cursor'' = None
          \<and> JStr ''c1'' \<notin> snd ` set (body rq)
          \<and> map_of (body rq) ''page'' = Some (JNum 2)
      | (h', None) \<Rightarrow> False)"
  by (simp add: loadMore_begin_def loadMore_skips_def loadMore_params_def search_state_Inr
      search_begin_state search_begin_request search_resolve_def searchService_post_def
      requestData_def js_plus_one_def limit_or_20_def spread_array_def spread_string_def
      page_of_a_def split_beta)

text \<open>
  The scroll handler of \<^verbatim>\<open>useInfiniteScroll\<close>: within 1000 pixels of the end of the
  document it leaves \<^verbatim>\<open>isFetching\<close> as it is; farther up, with more to load and no
  fetch going on, it sets it.
\<close>

lemma handleScroll_near_end:
  "offsetHeight - 1000 \<le> innerHeight + scrollTop \<Longrightarrow>
     handleScroll innerHeight scrollTop offsetHeight isFetching hasMore_arg = isFetching"
  by (simp add: handleScroll_def)

lemma handleScroll_far_from_end:
  "innerHeight + scrollTop < offsetHeight - 1000 \<Longrightarrow> hasMore_arg \<Longrightarrow>
     handleScroll innerHeight scrollTop offsetHeight isFetching hasMore_arg"
  by (simp add: handleScroll_def)


text \<open>
  Claim C5, as amended. The client takes from a response only the seven fields the hook
  reads: whatever \<^verbatim>\<open>source_status\<close> a response carries, the state after it is the
  same. The sources are shown as the badges of \<^verbatim>\<open>apis_searched\<close>, and a response
  with results is rendered as one card per result.
\<close>

theorem source_status_unused:
  "search_resolve prev reset (r\<lparr>source_status := ss\<rparr>) = search_resolve prev reset r
   \<and> state (fst (search h p reset (Inr (r\<lparr>source_status := ss\<rparr>))))
       = state (fst (search h p reset (Inr r)))
   \<and> apisSearched (search_resolve prev reset r) = apis_searched r
   \<and> (resp_results r \<noteq> [] \<longrightarrow>
        (\<exists>v. SearchResults (search_resolve prev True r) fetching = ResultsView v
           \<and> map snd (cards v) = resp_results r
           \<and> source_badges v = map (replace_first (CHR ''_'') (CHR '' '')) (apis_searched r)))"
  by (simp add: search_state_Inr search_resolve_def SearchResults_def error_shown_def
      enumerate_eq_zip)

text \<open>
  The example response with one source timed out: it is rendered as its one card and
  the two source badges.
\<close>

theorem source_status_unused_witness:
  "resp_results page_of_a_degraded \<noteq> []
   \<and> (\<exists>v. SearchResults (search_resolve initial_state True page_of_a_degraded) False = ResultsView v
         \<and> map snd (cards v) = [result_a]
         \<and> source_badges v = [''portal transparencia'', ''ibge''])"
proof -
  have ne: "resp_results page_of_a_degraded \<noteq> []"
    by (simp add: page_of_a_degraded_def page_of_a_def)
  have rs: "resp_results page_of_a_degraded = [result_a]"
    and ap: "apis_searched page_of_a_degraded = [''portal_transparencia'', ''ibge'']"
    by (simp_all add: page_of_a_degraded_def page_of_a_def)
  from source_status_unused [where prev = initial_state and reset = True
      and r = page_of_a_degraded and ss = "[]" and h = initial_hook and p = params_a
      and fetching = False]
  have "\<exists>v. SearchResults (search_resolve initial_state True page_of_a_degraded) False = ResultsView v
         \<and> map snd (cards v) = resp_results page_of_a_degraded
         \<and> source_badges v =
             map (replace_first (CHR ''_'') (CHR '' '')) (apis_searched page_of_a_degraded)"
    using ne by blast
  then show ?thesis
    using ne by (simp add: rs ap)
qed

text \<open>
  Claim C5 as stated fails: two responses that differ only in that one source timed out
  are rendered the same, so the entry that is not \<open>Ok\<close> is not shown.
\<close>

theorem source_status_not_surfaced:
  "source_status page_of_a_degraded \<noteq> source_status page_of_a
   \<and> (\<forall>fetching.
        SearchResults
          (state (handleSearch initial_hook initial_filters ''despesas'' (Inr page_of_a_degraded)))
          fetching
        = SearchResults
            (state (handleSearch initial_hook initial_filters ''despesas'' (Inr page_of_a)))
            fetching)"
  by (simp add: page_of_a_degraded_def page_of_a_def handleSearch_def search_state_Inr
      search_resolve_def)




text \<open>
  Claim C8, evaluated: a search is started and, before it is answered, a second one;
  then the results are cleared. \<^verbatim>\<open>abort()\<close> has been called on the first controller,
  yet both requests are still in flight and still doing outbound work, since no request
  carries a signal.
\<close>

theorem abort_leaves_request_running:
  "(let (h1, rq1) = search_begin initial_hook params_a True;
        (h2, rq2) = search_begin h1 params_b True
    in aborted h2 = [0] \<and> inflight h2 = [rq1, rq2] \<and> rq1 \<noteq> rq2
       \<and> signal rq1 = None \<and> signal rq2 = None
       \<and> performing h2 rq1 \<and> performing h2 rq2
       \<and> aborted (clearResults h2) = [1, 0]
       \<and> inflight (clearResults h2) = [rq1, rq2]
       \<and> performing (clearResults h2) rq1 \<and> performing (clearResults h2) rq2)"
  by (simp add: search_begin_def abort_current_def initial_hook_def initial_state_def Let_def
      searchService_post_def requestData_def params_a_def params_b_def performing_def
      clearResults_def limit_or_20_def spread_array_def spread_string_def)

section \<open>Properties of the search service\<close>

text \<open>
  Claim C9. When the underlying call fails, \<^verbatim>\<open>getSuggestions\<close> and \<^verbatim>\<open>getApisStatus\<close>
  return the empty list, and \<^verbatim>\<open>search\<close> throws an error with the fixed message and
  returns no response.
\<close>

theorem service_failures:
  "getSuggestions (Inl e) = []
   \<and> getApisStatus (Inl e) = []
   \<and> searchService_search (Inl e) =
       Inl \<lparr>err_name = ''Error'', err_message = ''Falha na busca. Tente novamente.''\<rparr>
   \<and> (\<forall>r. searchService_search (Inl e) \<noteq> Inr r)"
  by (simp add: getSuggestions_def getApisStatus_def searchService_search_def search_failed_def)

section \<open>Properties of the search history\<close>

lemma addToHistory_length:
  "length (searchHistory hs) \<le> 10 \<Longrightarrow> length (searchHistory (addToHistory hs q)) \<le> 10"
  by (simp add: addToHistory_def Let_def)

lemma addToHistory_distinct:
  "distinct (searchHistory hs) \<Longrightarrow> distinct (searchHistory (addToHistory hs q))"
  by (auto simp add: addToHistory_def Let_def dest: in_set_takeD)

lemma addToHistory_front:
  "trim q \<noteq> [] \<Longrightarrow>
     searchHistory (addToHistory hs q) =
       q # take 9 (filter (\<lambda>item. item \<noteq> q) (searchHistory hs))"
  by (simp add: addToHistory_def Let_def take_Cons')

lemma addToHistory_once:
  "trim q \<noteq> [] \<Longrightarrow> count_list (searchHistory (addToHistory hs q)) q = 1"
proof -
  assume "trim q \<noteq> []"
  then have eq: "searchHistory (addToHistory hs q) =
      q # take 9 (filter (\<lambda>item. item \<noteq> q) (searchHistory hs))"
    by (rule addToHistory_front)
  have "q \<notin> set (take 9 (filter (\<lambda>item. item \<noteq> q) (searchHistory hs)))"
    by (auto dest: in_set_takeD)
  then show ?thesis by (simp add: eq)
qed

lemma history_reachable_ok: "history_reachable hs \<Longrightarrow> history_ok hs"
proof (induction rule: history_reachable.induct)
  case first_visit
  show ?case by (simp add: history_ok_def load_history_def)
next
  case (added hs q)
  then have d: "distinct (searchHistory hs)" and l: "length (searchHistory hs) \<le> 10"
    by (simp_all add: history_ok_def)
  show ?case
  proof (cases "trim q = []")
    case True
    with added show ?thesis by (simp add: addToHistory_def)
  next
    case False
    have "distinct (searchHistory (addToHistory hs q))"
      using d by (rule addToHistory_distinct)
    moreover have "length (searchHistory (addToHistory hs q)) \<le> 10"
      using l by (rule addToHistory_length)
    moreover have "localStorage (addToHistory hs q) = Some (searchHistory (addToHistory hs q))"
      using False by (simp add: addToHistory_def Let_def)
    ultimately show ?thesis by (simp add: history_ok_def)
  qed
next
  case (cleared hs)
  show ?case by (simp add: history_ok_def clearHistory_def)
next
  case (reloaded hs)
  then show ?case by (simp add: history_ok_def load_history_def split: option.splits)
qed

text \<open>
  Claim C10. A query that is not blank becomes the first entry of the history, occurs
  in it once, and the history has at most ten entries; a blank query leaves the history
  as it was. After every call of \<^verbatim>\<open>addToHistory\<close> on a history the provider can hold,
  the history has at most ten entries and no entry twice.
\<close>

theorem addToHistory_invariant:
  "(trim q \<noteq> [] \<longrightarrow>
      hd (searchHistory (addToHistory hs q)) = q
      \<and> count_list (searchHistory (addToHistory hs q)) q = 1
      \<and> length (searchHistory (addToHistory hs q)) \<le> 10)
   \<and> (trim q = [] \<longrightarrow> addToHistory hs q = hs)
   \<and> (history_reachable hs \<longrightarrow>
        length (searchHistory (addToHistory hs q)) \<le> 10
        \<and> distinct (searchHistory (addToHistory hs q)))"
proof -
  have blank: "trim q = [] \<Longrightarrow> addToHistory hs q = hs"
    by (simp add: addToHistory_def)
  have front: "trim q \<noteq> [] \<Longrightarrow> hd (searchHistory (addToHistory hs q)) = q"
    by (simp add: addToHistory_front)
  have short: "trim q \<noteq> [] \<Longrightarrow> length (searchHistory (addToHistory hs q)) \<le> 10"
    by (simp add: addToHistory_def Let_def)
  have inv: "length (searchHistory (addToHistory hs q)) \<le> 10
      \<and> distinct (searchHistory (addToHistory hs q))" if "history_reachable hs"
  proof -
    from that have "history_ok hs" by (rule history_reachable_ok)
    then have d: "distinct (searchHistory hs)" and l: "length (searchHistory hs) \<le> 10"
      by (simp_all add: history_ok_def)
    show ?thesis
      using addToHistory_distinct [OF d] addToHistory_length [OF l] by simp
  qed
  show ?thesis
    using blank front short inv addToHistory_once by blast
qed

text \<open>
  A query entered again moves to the front; a query of two spaces changes nothing; an
  eleventh query pushes the oldest one out.
\<close>

theorem addToHistory_invariant_witness:
  "history_reachable (addToHistory (addToHistory (load_history None) ''ibge'') ''senado'')
   \<and> searchHistory (addToHistory (addToHistory (load_history None) ''ibge'') ''senado'')
       = [''senado'', ''ibge'']
   \<and> trim ''ibge'' \<noteq> []
   \<and> searchHistory
        (addToHistory (addToHistory (addToHistory (load_history None) ''ibge'') ''senado'') ''ibge'')
       = [''ibge'', ''senado'']
   \<and> trim ''  '' = []
   \<and> addToHistory (addToHistory (addToHistory (load_history None) ''ibge'') ''senado'') ''  ''
       = addToHistory (addToHistory (load_history None) ''ibge'') ''senado''
   \<and> history_reachable history_of_ten
   \<and> searchHistory history_of_ten
       = [''q9'', ''q8'', ''q7'', ''q6'', ''q5'', ''q4'', ''q3'', ''q2'', ''q1'', ''q0'']
   \<and> searchHistory (addToHistory history_of_ten ''ibge'')
       = [''ibge'', ''q9'', ''q8'', ''q7'', ''q6'', ''q5'', ''q4'', ''q3'', ''q2'', ''q1'']"
proof -
  have nb: "trim ''ibge'' \<noteq> []" and bl: "trim ''  '' = []"
    by (simp_all add: trim_def is_whitespace_def)
  have r: "history_reachable (addToHistory (addToHistory (load_history None) ''ibge'') ''senado'')"
    by (intro history_reachable.intros)
  have t: "history_reachable history_of_ten"
    unfolding history_of_ten_def foldl.simps by (intro history_reachable.intros)
  have ten: "searchHistory history_of_ten
      = [''q9'', ''q8'', ''q7'', ''q6'', ''q5'', ''q4'', ''q3'', ''q2'', ''q1'', ''q0'']"
    by (simp add: history_of_ten_def addToHistory_def load_history_def trim_def
        is_whitespace_def Let_def)
  have eleven: "searchHistory (addToHistory history_of_ten ''ibge'')
      = [''ibge'', ''q9'', ''q8'', ''q7'', ''q6'', ''q5'', ''q4'', ''q3'', ''q2'', ''q1'']"
    by (simp add: addToHistory_front nb ten)
  have two: "searchHistory (addToHistory (addToHistory (load_history None) ''ibge'') ''senado'')
      = [''senado'', ''ibge'']"
    by (simp add: addToHistory_def load_history_def trim_def is_whitespace_def Let_def)
  have again: "searchHistory
        (addToHistory (addToHistory (addToHistory (load_history None) ''ibge'') ''senado'') ''ibge'')
       = [''ibge'', ''senado'']"
    by (simp add: addToHistory_front nb two)
  show ?thesis
    using r t ten eleven two again nb bl
      addToHistory_invariant [of "''  ''"
        "addToHistory (addToHistory (load_history None) ''ibge'') ''senado''"]
      addToHistory_invariant [of "''ibge''"
        "addToHistory (addToHistory (load_history None) ''ibge'') ''senado''"]
    by simp
qed

section \<open>Properties of the merge step\<close>

lemma ranks_before_total: "ranks_before score priority a b \<or> ranks_before score priority b a"
  unfolding ranks_before_def
  using linorder_less_linear [of "score a" "score b"]
    linorder_less_linear [of "priority (source a)" "priority (source b)"]
    linorder_linear [of "result_id a" "result_id b"]
  by auto

lemma ranks_before_trans:
  "ranks_before score priority a b \<Longrightarrow> ranks_before score priority b c \<Longrightarrow>
     ranks_before score priority a c"
  unfolding ranks_before_def
  by (elim disjE conjE) (auto intro: less_trans order_trans)

lemma ranks_before_antisym:
  "ranks_before score priority a b \<Longrightarrow> ranks_before score priority b a \<Longrightarrow>
     result_id a = result_id b"
  unfolding ranks_before_def by (elim disjE conjE) (auto intro: order_antisym)

lemma ranks_before_explicit:
  "ranks_before score priority a b \<Longrightarrow>
     score b \<le> score a
     \<and> (score a = score b \<longrightarrow>
          priority (source b) \<le> priority (source a)
          \<and> (priority (source a) = priority (source b) \<longrightarrow> result_id a \<le> result_id b))"
  unfolding ranks_before_def by auto

lemma set_insert_ranked: "set (insert_ranked score priority x ys) = insert x (set ys)"
  by (induction ys) auto

lemma mset_insert_ranked: "mset (insert_ranked score priority x ys) = add_mset x (mset ys)"
  by (induction ys) auto

lemma sorted_insert_ranked:
  "sorted_wrt (ranks_before score priority) ys \<Longrightarrow>
     sorted_wrt (ranks_before score priority) (insert_ranked score priority x ys)"
proof (induction ys)
  case Nil
  then show ?case by simp
next
  case (Cons y ys)
  show ?case
  proof (cases "ranks_before score priority x y")
    case True
    have "\<forall>z\<in>set ys. ranks_before score priority x z"
      using Cons.prems True by (auto intro: ranks_before_trans)
    with True Cons.prems show ?thesis by simp
  next
    case False
    then have "ranks_before score priority y x"
      using ranks_before_total [of score priority x y] by simp
    with False Cons show ?thesis by (simp add: set_insert_ranked)
  qed
qed

lemma mset_rank_sort: "mset (rank_sort score priority xs) = mset xs"
  by (induction xs) (simp_all add: rank_sort_def mset_insert_ranked)

lemma sorted_rank_sort: "sorted_wrt (ranks_before score priority) (rank_sort score priority xs)"
  by (induction xs) (simp_all add: rank_sort_def sorted_insert_ranked)

lemma sorted_wrt_take: "sorted_wrt P xs \<Longrightarrow> sorted_wrt P (take n xs)"
  by (metis append_take_drop_id sorted_wrt_append)

lemma ranked_unique:
  "sorted_wrt (ranks_before score priority) xs \<Longrightarrow>
   sorted_wrt (ranks_before score priority) ys \<Longrightarrow>
   mset xs = mset ys \<Longrightarrow> inj_on result_id (set xs) \<Longrightarrow> xs = ys"
proof (induction xs arbitrary: ys)
  case Nil
  then show ?case by simp
next
  case (Cons x xs)
  from Cons.prems(3) obtain y ys' where ys: "ys = y # ys'"
    by (cases ys) auto
  have sets: "set (x # xs) = set (y # ys')"
    using Cons.prems(3) ys by (metis mset_eq_setD)
  have "x = y"
  proof (rule ccontr)
    assume ne: "x \<noteq> y"
    with sets have "x \<in> set ys'" "y \<in> set xs" by auto
    then have "ranks_before score priority y x" "ranks_before score priority x y"
      using Cons.prems(1,2) ys by auto
    then have "result_id x = result_id y" by (rule ranks_before_antisym [THEN sym])
    moreover have "x \<in> set (x # xs)" "y \<in> set (x # xs)" using sets by auto
    ultimately show False using Cons.prems(4) ne by (auto dest: inj_onD)
  qed
  moreover have "xs = ys'"
  proof (rule Cons.IH)
    show "sorted_wrt (ranks_before score priority) xs" using Cons.prems(1) by simp
    show "sorted_wrt (ranks_before score priority) ys'" using Cons.prems(2) ys by simp
    show "mset xs = mset ys'" using Cons.prems(3) ys \<open>x = y\<close> by simp
    show "inj_on result_id (set xs)" using Cons.prems(4) by (auto intro: inj_on_subset)
  qed
  ultimately show ?case using ys by simp
qed

text \<open>
  Claim C6. The merged page is in descending order of combined score; of two results
  with equal score the one of the higher-priority source stands first, and at equal
  priority the one with the lower id. When the ids of the candidates are unique, the
  page depends only on which candidates were given, not on how they were batched or
  ordered.
\<close>

theorem merge_batches_ranked:
  "sorted_wrt
     (\<lambda>a b. score b \<le> score a
        \<and> (score a = score b \<longrightarrow>
             priority (source b) \<le> priority (source a)
             \<and> (priority (source a) = priority (source b) \<longrightarrow> result_id a \<le> result_id b)))
     (merge_batches score priority page_limit batches)
   \<and> (mset (concat batches') = mset (concat batches) \<and> inj_on result_id (set (concat batches))
        \<longrightarrow> merge_batches score priority page_limit batches'
            = merge_batches score priority page_limit batches)"
proof -
  have "sorted_wrt (ranks_before score priority) (merge_batches score priority page_limit batches)"
    by (simp add: merge_batches_def sorted_wrt_take sorted_rank_sort)
  then have s: "sorted_wrt
     (\<lambda>a b. score b \<le> score a
        \<and> (score a = score b \<longrightarrow>
             priority (source b) \<le> priority (source a)
             \<and> (priority (source a) = priority (source b) \<longrightarrow> result_id a \<le> result_id b)))
     (merge_batches score priority page_limit batches)"
    by (rule sorted_wrt_mono_rel [rotated]) (rule ranks_before_explicit)
  have "rank_sort score priority (concat batches') = rank_sort score priority (concat batches)"
    if m: "mset (concat batches') = mset (concat batches)"
      and i: "inj_on result_id (set (concat batches))"
  proof (rule ranked_unique)
    show "sorted_wrt (ranks_before score priority) (rank_sort score priority (concat batches'))"
      by (rule sorted_rank_sort)
    show "sorted_wrt (ranks_before score priority) (rank_sort score priority (concat batches))"
      by (rule sorted_rank_sort)
    show "mset (rank_sort score priority (concat batches'))
        = mset (rank_sort score priority (concat batches))"
      using m by (simp add: mset_rank_sort)
    have "set (rank_sort score priority (concat batches')) = set (concat batches)"
      using m by (metis mset_rank_sort mset_eq_setD)
    then show "inj_on result_id (set (rank_sort score priority (concat batches')))"
      using i by simp
  qed
  then show ?thesis using s by (simp add: merge_batches_def)
qed

text \<open>
  Three candidates from three sources, batched in two ways: the same page of two, the
  tie in score decided by the priority of the source.
\<close>

theorem merge_batches_ranked_witness:
  "mset (concat [[result_a], [result_b, result_c]]) = mset (concat [[result_c, result_b], [result_a]])
   \<and> inj_on result_id (set (concat [[result_c, result_b], [result_a]]))
   \<and> merge_batches relevance source_priority 2 [[result_c, result_b], [result_a]]
       = [result_a, result_b]
   \<and> merge_batches relevance source_priority 2 [[result_a], [result_b, result_c]]
       = [result_a, result_b]
   \<and> sorted_wrt
     (\<lambda>a b. relevance b \<le> relevance a
        \<and> (relevance a = relevance b \<longrightarrow>
             source_priority (source b) \<le> source_priority (source a)
             \<and> (source_priority (source a) = source_priority (source b) \<longrightarrow> result_id a \<le> result_id b)))
     [result_a, result_b]"
proof -
  have m: "mset (concat [[result_a], [result_b, result_c]])
      = mset (concat [[result_c, result_b], [result_a]])"
    by simp
  have i: "inj_on result_id (set (concat [[result_c, result_b], [result_a]]))"
    by (simp add: result_a_def result_b_def result_c_def)
  have e: "merge_batches relevance source_priority 2 [[result_c, result_b], [result_a]]
      = [result_a, result_b]"
    by (simp add: merge_batches_def rank_sort_def ranks_before_def source_priority_def
        result_a_def result_b_def result_c_def)
  show ?thesis
    using m i e
      merge_batches_ranked [of relevance source_priority 2 "[[result_c, result_b], [result_a]]"
        "[[result_a], [result_b, result_c]]"]
    by simp
qed

end
